theory Spec2Isabelle
  imports Main "HOL-Library.Signed_Division"
begin

section \<open>The bounded FIFO queue of lab.c\<close>

text \<open>
  The queue of \<^verbatim>\<open>lab.c\<close> is a circular buffer of \<^verbatim>\<open>void *\<close> slots guarded by one
  mutex and two condition variables. Every function holds the mutex for the whole of its
  body and gives it up only inside \<^verbatim>\<open>pthread_cond_wait\<close>, so each call acts on the
  queue as one atomic step. The embedding below is that step, for a caller that is alone
  on the queue while its call runs: a call whose wait condition holds on entry is never
  woken with a changed state and does not return, which is the value \<open>None\<close>.

  Platform facts taken from the usual target of pthread code (LP64): \<^verbatim>\<open>int\<close> has 32
  bits, \<^verbatim>\<open>size_t\<close> has 64 bits, \<^verbatim>\<open>sizeof(void *)\<close> is 8 and \<^verbatim>\<open>PTRDIFF_MAX\<close> is
  \<open>2 ^ 63 - 1\<close>.
\<close>

subsection \<open>C values\<close>

text \<open>A \<^verbatim>\<open>void *\<close> payload: the null pointer or an address.\<close>

datatype ptr = NULL | Addr nat

text \<open>Undefined behaviour of the C program is a value of the model.\<close>

datatype fault = Div_By_Zero | Out_Of_Bounds | Int_Overflow

definition INT_MAX :: int where
  "INT_MAX = 2147483647"

definition INT_MIN :: int where
  "INT_MIN = - 2147483648"

definition sizeof_voidp :: nat where
  "sizeof_voidp = 8"

text \<open>Conversion of an integer to \<^verbatim>\<open>size_t\<close>: reduction modulo \<open>2 ^ 64\<close>.\<close>

definition size_t :: "int \<Rightarrow> nat" where
  "size_t n = nat (n mod 2 ^ 64)"

text \<open>Signed addition on \<^verbatim>\<open>int\<close>; overflow is undefined.\<close>

definition c_add :: "int \<Rightarrow> int \<Rightarrow> fault + int" where
  "c_add a b =
     (if INT_MIN \<le> a + b \<and> a + b \<le> INT_MAX then Inr (a + b) else Inl Int_Overflow)"

text \<open>
  The operator \<^verbatim>\<open>%\<close> of C: the remainder of the division that truncates towards zero
  (\<open>smod\<close>); a zero divisor, and \<^verbatim>\<open>INT_MIN % -1\<close>, are undefined.
\<close>

definition c_rem :: "int \<Rightarrow> int \<Rightarrow> fault + int" where
  "c_rem a b =
     (if b = 0 then Inl Div_By_Zero
      else if a = INT_MIN \<and> b = - 1 then Inl Int_Overflow
      else Inr (a smod b))"

text \<open>Reading and writing \<^verbatim>\<open>buffer[i]\<close>; an index outside the block is undefined.\<close>

definition load :: "ptr list \<Rightarrow> int \<Rightarrow> fault + ptr" where
  "load buf i =
     (if 0 \<le> i \<and> i < int (length buf) then Inr (buf ! nat i) else Inl Out_Of_Bounds)"

definition store :: "ptr list \<Rightarrow> int \<Rightarrow> ptr \<Rightarrow> fault + ptr list" where
  "store buf i v =
     (if 0 \<le> i \<and> i < int (length buf) then Inr (buf[nat i := v]) else Inl Out_Of_Bounds)"

subsection \<open>The queue structure\<close>

text \<open>
  \<^verbatim>\<open>struct queue\<close>. The field \<^verbatim>\<open>size\<close> is \<open>size_q\<close> here (\<open>size\<close> is a constant of
  HOL). The mutex and the condition variables carry no data that a single caller can
  observe and are not fields of the record.
\<close>

record queue =
  buffer :: "ptr list"
  capacity :: int
  size_q :: int
  front :: int
  rear :: int
  is_shutdown :: bool

subsection \<open>queue\_init\<close>

text \<open>
  The two calls of \<^verbatim>\<open>malloc\<close> are answered by the environment: \<open>malloc_q\<close> says whether
  the structure was allocated, \<open>malloc_buf\<close> is \<open>None\<close> when the buffer was not and
  otherwise gives the indeterminate content of the fresh block, slot by slot. The block
  has as many slots as fit in the \<^verbatim>\<open>capacity * sizeof(void*)\<close> bytes asked for, a product
  computed in \<^verbatim>\<open>size_t\<close>. The last argument counts the heap blocks that are allocated and
  not freed; the count is returned beside the handle, where \<open>None\<close> is the \<^verbatim>\<open>NULL\<close>
  handle.
\<close>

definition queue_init :: "bool \<Rightarrow> (nat \<Rightarrow> ptr) option \<Rightarrow> int \<Rightarrow> nat \<Rightarrow> queue option \<times> nat" where
  "queue_init malloc_q malloc_buf cap heap =
     (if \<not> malloc_q then (None, heap)
      else
        let heap1 = heap + 1 in
        case malloc_buf of
          None \<Rightarrow> (None, heap1 - 1)
        | Some junk \<Rightarrow>
            (Some \<lparr>buffer = map junk [0..<size_t (cap * int sizeof_voidp) div sizeof_voidp],
                   capacity = cap, size_q = 0, front = 0, rear = - 1,
                   is_shutdown = False\<rparr>,
             heap1 + 1))"

subsection \<open>Waiting\<close>

text \<open>
  \<^verbatim>\<open>pthread_cond_wait\<close> gives the mutex up, suspends the caller and takes the mutex
  again before it returns. With nobody else at work on the queue the caller finds the
  state it left.
\<close>

definition pthread_cond_wait :: "queue \<Rightarrow> queue" where
  "pthread_cond_wait q = q"

text \<open>The two wait loops, as loops. A loop that does not end has no result.\<close>

partial_function (option) wait_not_full :: "queue \<Rightarrow> queue option" where
  "wait_not_full q =
     (if size_q q = capacity q \<and> \<not> is_shutdown q then wait_not_full (pthread_cond_wait q)
      else Some q)"

declare wait_not_full.simps [code]

partial_function (option) wait_not_empty :: "queue \<Rightarrow> queue option" where
  "wait_not_empty q =
     (if size_q q = 0 \<and> \<not> is_shutdown q then wait_not_empty (pthread_cond_wait q)
      else Some q)"

declare wait_not_empty.simps [code]

subsection \<open>enqueue, dequeue, queue\_shutdown and the queries\<close>

text \<open>
  The result of a call is \<open>None\<close> when the call never returns, \<open>Some (Inl f)\<close> when it
  runs into undefined behaviour and \<open>Some (Inr r)\<close> when it returns.
\<close>

definition enqueue :: "queue \<Rightarrow> ptr \<Rightarrow> (fault + queue) option" where
  "enqueue q0 data =
     (case wait_not_full q0 of
        None \<Rightarrow> None
      | Some q \<Rightarrow>
          if is_shutdown q then Some (Inr q)
          else Some
            (case c_add (rear q) 1 of Inl f \<Rightarrow> Inl f | Inr r1 \<Rightarrow>
            (case c_rem r1 (capacity q) of Inl f \<Rightarrow> Inl f | Inr r \<Rightarrow>
            (case store (buffer q) r data of Inl f \<Rightarrow> Inl f | Inr buf \<Rightarrow>
            (case c_add (size_q q) 1 of Inl f \<Rightarrow> Inl f | Inr s \<Rightarrow>
               Inr (q\<lparr>rear := r, buffer := buf, size_q := s\<rparr>))))))"

definition dequeue :: "queue \<Rightarrow> (fault + ptr \<times> queue) option" where
  "dequeue q0 =
     (case wait_not_empty q0 of
        None \<Rightarrow> None
      | Some q \<Rightarrow>
          if size_q q = 0 then Some (Inr (NULL, q))
          else Some
            (case load (buffer q) (front q) of Inl f \<Rightarrow> Inl f | Inr data \<Rightarrow>
            (case c_add (front q) 1 of Inl f \<Rightarrow> Inl f | Inr f1 \<Rightarrow>
            (case c_rem f1 (capacity q) of Inl f \<Rightarrow> Inl f | Inr fr \<Rightarrow>
            (case c_add (size_q q) (- 1) of Inl f \<Rightarrow> Inl f | Inr s \<Rightarrow>
               Inr (data, q\<lparr>front := fr, size_q := s\<rparr>))))))"

text \<open>\<^verbatim>\<open>queue_shutdown\<close> returns the queue and what it wrote to \<^verbatim>\<open>stderr\<close>.\<close>

definition queue_shutdown :: "queue \<Rightarrow> queue \<times> string" where
  "queue_shutdown q = (q\<lparr>is_shutdown := True\<rparr>, ''Shutdown requested!'' @ [CHR 0x0A])"

definition is_empty :: "queue \<Rightarrow> bool" where
  "is_empty q = (size_q q = 0)"

text \<open>The function \<^verbatim>\<open>is_shutdown\<close>; the record field has the name already.\<close>

definition is_shutdown_query :: "queue \<Rightarrow> bool" where
  "is_shutdown_query q = is_shutdown q"

subsection \<open>Sequences of calls\<close>

text \<open>
  A history of the queue is a list of calls. A call that does not return leaves the
  queue as it found it (its caller sleeps in \<^verbatim>\<open>pthread_cond_wait\<close> and holds nothing),
  so the calls after it, made by other threads, see the state before it. The two queries
  read one field under the mutex and write nothing; what they return is not part of the
  state.
\<close>

datatype op = Enqueue ptr | Dequeue | Shutdown | IsEmpty | IsShutdown

fun step :: "queue \<Rightarrow> op \<Rightarrow> fault + queue" where
  "step q (Enqueue d) = (case enqueue q d of None \<Rightarrow> Inr q | Some r \<Rightarrow> r)"
| "step q Dequeue =
     (case dequeue q of None \<Rightarrow> Inr q | Some (Inl f) \<Rightarrow> Inl f | Some (Inr (d, q')) \<Rightarrow> Inr q')"
| "step q Shutdown = Inr (fst (queue_shutdown q))"
| "step q IsEmpty = Inr q"
| "step q IsShutdown = Inr q"

fun run :: "queue \<Rightarrow> op list \<Rightarrow> fault + queue" where
  "run q [] = Inr q"
| "run q (x # xs) = (case step q x of Inl f \<Rightarrow> Inl f | Inr q' \<Rightarrow> run q' xs)"

text \<open>One producer enqueues a list of items, call after call.\<close>

fun enqueue_all :: "queue \<Rightarrow> ptr list \<Rightarrow> (fault + queue) option" where
  "enqueue_all q [] = Some (Inr q)"
| "enqueue_all q (x # xs) =
     (case enqueue q x of
        None \<Rightarrow> None
      | Some (Inl f) \<Rightarrow> Some (Inl f)
      | Some (Inr q') \<Rightarrow> enqueue_all q' xs)"

text \<open>One consumer dequeues \<open>n\<close> times and collects what the calls return.\<close>

fun dequeue_n :: "queue \<Rightarrow> nat \<Rightarrow> (fault + ptr list \<times> queue) option" where
  "dequeue_n q 0 = Some (Inr ([], q))"
| "dequeue_n q (Suc n) =
     (case dequeue q of
        None \<Rightarrow> None
      | Some (Inl f) \<Rightarrow> Some (Inl f)
      | Some (Inr (d, q')) \<Rightarrow>
          (case dequeue_n q' n of
             None \<Rightarrow> None
           | Some (Inl f) \<Rightarrow> Some (Inl f)
           | Some (Inr (ds, q'')) \<Rightarrow> Some (Inr (d # ds, q''))))"

subsection \<open>The items in the buffer\<close>

text \<open>
  The slots \<open>front\<close>, \<open>front + 1\<close>, ... taken modulo \<open>capacity\<close>, \<open>size\<close> of them,
  in this order.
\<close>

definition resident :: "queue \<Rightarrow> ptr list" where
  "resident q =
     map (\<lambda>i. buffer q ! nat ((front q + int i) mod capacity q)) [0..<nat (size_q q)]"

text \<open>The invariant of the structure that the functions rely on.\<close>

definition queue_inv :: "queue \<Rightarrow> bool" where
  "queue_inv q \<longleftrightarrow>
     0 < capacity q \<and> capacity q \<le> INT_MAX \<and>
     length (buffer q) = nat (capacity q) \<and>
     0 \<le> size_q q \<and> size_q q \<le> capacity q \<and>
     0 \<le> front q \<and> front q < capacity q \<and>
     - 1 \<le> rear q \<and> rear q < capacity q \<and>
     (rear q + 1) mod capacity q = (front q + size_q q) mod capacity q \<and>
     (rear q = - 1 \<longrightarrow> size_q q = 0 \<and> front q = 0)"

subsection \<open>The queue of the specification\<close>

text \<open>
  The specification's queue, from its words: the items that are live, oldest first, and
  the shutdown flag. Enqueue adds the item at the end unless the queue is shut down
  (the item is dropped) or holds \<open>capacity\<close> items (the caller is suspended); Dequeue
  removes the oldest item if there is one; Shutdown sets the flag; the queries change
  nothing.
\<close>

fun spec_step :: "int \<Rightarrow> ptr list \<times> bool \<Rightarrow> op \<Rightarrow> ptr list \<times> bool" where
  "spec_step c (items, down) (Enqueue d) =
     (if down \<or> int (length items) = c then (items, down) else (items @ [d], down))"
| "spec_step c (items, down) Dequeue = (tl items, down)"
| "spec_step c (items, down) Shutdown = (items, True)"
| "spec_step c (items, down) IsEmpty = (items, down)"
| "spec_step c (items, down) IsShutdown = (items, down)"

definition spec_run :: "int \<Rightarrow> op list \<Rightarrow> ptr list \<times> bool" where
  "spec_run c xs = foldl (spec_step c) ([], False) xs"

subsection \<open>What a caller sees\<close>

text \<open>
  \<^verbatim>\<open>dequeue\<close> hands its caller one \<^verbatim>\<open>void *\<close> and nothing else: the caller of a call
  that returns sees this pointer, not the queue.
\<close>

definition returned :: "(fault + ptr \<times> queue) option \<Rightarrow> ptr option" where
  "returned r = (case r of Some (Inr (d, q)) \<Rightarrow> Some d | _ \<Rightarrow> None)"

fun is_enqueue :: "op \<Rightarrow> bool" where
  "is_enqueue (Enqueue d) = True"
| "is_enqueue _ = False"

subsection \<open>What the allocator can give\<close>

text \<open>
  No object of the platform has more than \<^verbatim>\<open>PTRDIFF_MAX\<close> bytes, and its \<^verbatim>\<open>malloc\<close>
  answers a larger request with \<^verbatim>\<open>NULL\<close>, however much memory is free. For a request
  within the limit the answer is the environment's: \<open>None\<close> when it has no block to
  give, the content of the fresh block otherwise. The result is the value that
  \<^verbatim>\<open>queue_init\<close> receives from its second call of \<^verbatim>\<open>malloc\<close>.
\<close>

definition PTRDIFF_MAX :: nat where
  "PTRDIFF_MAX = 9223372036854775807"

definition malloc :: "(nat \<Rightarrow> ptr) option \<Rightarrow> nat \<Rightarrow> (nat \<Rightarrow> ptr) option" where
  "malloc env bytes = (if PTRDIFF_MAX < bytes then None else env)"


section \<open>Properties\<close>

subsection \<open>The wait loops\<close>

lemma wait_not_full_Some: "wait_not_full q = Some q' \<Longrightarrow> \<not> (size_q q = capacity q \<and> \<not> is_shutdown q)"
  by (rule wait_not_full.raw_induct [where P = "\<lambda>q q'. \<not> (size_q q = capacity q \<and> \<not> is_shutdown q)"])
     (auto simp: pthread_cond_wait_def split: if_splits)

lemma wait_not_full_blocks: "size_q q = capacity q \<Longrightarrow> \<not> is_shutdown q \<Longrightarrow> wait_not_full q = None"
  using wait_not_full_Some by (cases "wait_not_full q") auto

lemma wait_not_full_returns: "\<not> (size_q q = capacity q \<and> \<not> is_shutdown q) \<Longrightarrow> wait_not_full q = Some q"
  by (subst wait_not_full.simps) auto

lemma wait_not_empty_Some: "wait_not_empty q = Some q' \<Longrightarrow> \<not> (size_q q = 0 \<and> \<not> is_shutdown q)"
  by (rule wait_not_empty.raw_induct [where P = "\<lambda>q q'. \<not> (size_q q = 0 \<and> \<not> is_shutdown q)"])
     (auto simp: pthread_cond_wait_def split: if_splits)

lemma wait_not_empty_blocks: "size_q q = 0 \<Longrightarrow> \<not> is_shutdown q \<Longrightarrow> wait_not_empty q = None"
  using wait_not_empty_Some by (cases "wait_not_empty q") auto

lemma wait_not_empty_returns: "\<not> (size_q q = 0 \<and> \<not> is_shutdown q) \<Longrightarrow> wait_not_empty q = Some q"
  by (subst wait_not_empty.simps) auto

lemma wait_not_full_eq:
  "wait_not_full q = (if size_q q = capacity q \<and> \<not> is_shutdown q then None else Some q)"
  by (simp add: wait_not_full_blocks wait_not_full_returns)

lemma wait_not_empty_eq:
  "wait_not_empty q = (if size_q q = 0 \<and> \<not> is_shutdown q then None else Some q)"
  by (simp add: wait_not_empty_blocks wait_not_empty_returns)

lemma smod_nonneg: "0 \<le> a \<Longrightarrow> 0 < b \<Longrightarrow> a smod b = a mod (b::int)"
  by (simp add: smod_int_alt_def sgn_if)

lemma enqueue_shutdown: "is_shutdown q \<Longrightarrow> enqueue q d = Some (Inr q)"
  by (simp add: enqueue_def wait_not_full_eq)

lemma enqueue_full: "size_q q = capacity q \<Longrightarrow> \<not> is_shutdown q \<Longrightarrow> enqueue q d = None"
  by (simp add: enqueue_def wait_not_full_eq)

lemma enqueue_room:
  assumes "queue_inv q" "\<not> is_shutdown q" "size_q q \<noteq> capacity q"
  shows "enqueue q d = Some (Inr (q\<lparr>rear := (rear q + 1) mod capacity q,
            buffer := (buffer q)[nat ((rear q + 1) mod capacity q) := d],
            size_q := size_q q + 1\<rparr>))"
  using assms
  by (simp add: enqueue_def wait_not_full_eq queue_inv_def c_add_def c_rem_def store_def
      INT_MAX_def INT_MIN_def smod_nonneg)

lemma dequeue_empty_shutdown: "size_q q = 0 \<Longrightarrow> is_shutdown q \<Longrightarrow> dequeue q = Some (Inr (NULL, q))"
  by (simp add: dequeue_def wait_not_empty_eq)

lemma dequeue_empty_blocks: "size_q q = 0 \<Longrightarrow> \<not> is_shutdown q \<Longrightarrow> dequeue q = None"
  by (simp add: dequeue_def wait_not_empty_eq)

lemma dequeue_item:
  assumes "queue_inv q" "size_q q \<noteq> 0"
  shows "dequeue q = Some (Inr (buffer q ! nat (front q),
            q\<lparr>front := (front q + 1) mod capacity q, size_q := size_q q - 1\<rparr>))"
  using assms
  by (simp add: dequeue_def wait_not_empty_eq queue_inv_def c_add_def c_rem_def load_def
      INT_MAX_def INT_MIN_def smod_nonneg)

subsection \<open>The invariant and the resident items\<close>

lemma mod_shift_inj:
  fixes c :: int
  assumes "0 \<le> i" "i < j" "j < c" "(a + i) mod c = (a + j) mod c"
  shows False
proof -
  have "c dvd (a + j) - (a + i)"
    using assms(4) [symmetric] by (simp add: mod_eq_dvd_iff)
  then have "c dvd j - i" by simp
  moreover have "0 < j - i" "j - i < c" using assms by auto
  ultimately show False using zdvd_not_zless by blast
qed

lemma enqueue_room_inv:
  assumes "queue_inv q" "size_q q \<noteq> capacity q"
  shows "queue_inv (q\<lparr>rear := (rear q + 1) mod capacity q,
            buffer := (buffer q)[nat ((rear q + 1) mod capacity q) := d],
            size_q := size_q q + 1\<rparr>)"
proof -
  define r where "r = (rear q + 1) mod capacity q"
  have inv: "0 < capacity q" "capacity q \<le> INT_MAX" "length (buffer q) = nat (capacity q)"
    "0 \<le> size_q q" "size_q q \<le> capacity q" "0 \<le> front q" "front q < capacity q"
    and old: "(rear q + 1) mod capacity q = (front q + size_q q) mod capacity q"
    using assms(1) by (auto simp: queue_inv_def)
  have r: "0 \<le> r" "r < capacity q"
    using inv(1) by (simp_all add: r_def)
  have "(r + 1) mod capacity q = (front q + (size_q q + 1)) mod capacity q"
    unfolding r_def old by (simp add: mod_add_left_eq add.assoc)
  then show ?thesis
    unfolding r_def [symmetric] queue_inv_def using inv r assms(2) by simp
qed

lemma dequeue_item_inv:
  assumes "queue_inv q" "size_q q \<noteq> 0"
  shows "queue_inv (q\<lparr>front := (front q + 1) mod capacity q, size_q := size_q q - 1\<rparr>)"
  using assms unfolding queue_inv_def
  by (simp add: mod_add_left_eq)

lemma length_resident: "0 \<le> size_q q \<Longrightarrow> int (length (resident q)) = size_q q"
  by (simp add: resident_def)

lemma resident_enqueue:
  assumes "queue_inv q" "size_q q \<noteq> capacity q"
  shows "resident (q\<lparr>rear := (rear q + 1) mod capacity q,
            buffer := (buffer q)[nat ((rear q + 1) mod capacity q) := d],
            size_q := size_q q + 1\<rparr>) = resident q @ [d]"
proof -
  let ?c = "capacity q" and ?n = "nat (size_q q)"
  have c: "0 < ?c" and s: "0 \<le> size_q q" "size_q q < ?c"
    and len: "length (buffer q) = nat ?c"
    and r: "(rear q + 1) mod ?c = (front q + size_q q) mod ?c"
    using assms by (auto simp: queue_inv_def)
  have n: "nat (size_q q + 1) = Suc ?n" using s by simp
  have old: "(buffer q)[nat ((rear q + 1) mod ?c) := d] ! nat ((front q + int i) mod ?c)
      = buffer q ! nat ((front q + int i) mod ?c)" if "i < ?n" for i
  proof -
    have "int i < size_q q" using that by linarith
    then have "(front q + int i) mod ?c \<noteq> (front q + size_q q) mod ?c"
      using mod_shift_inj [of "int i" "size_q q" ?c "front q"] s by auto
    moreover have "0 \<le> (front q + int i) mod ?c" "0 \<le> (front q + size_q q) mod ?c"
      using c by simp_all
    ultimately have "nat ((rear q + 1) mod ?c) \<noteq> nat ((front q + int i) mod ?c)"
      using r by simp
    then show ?thesis by simp
  qed
  have new: "(buffer q)[nat ((rear q + 1) mod ?c) := d] ! nat ((front q + int ?n) mod ?c) = d"
  proof -
    have "nat ((rear q + 1) mod ?c) < length (buffer q)"
      using c len by simp
    then show ?thesis using r s by simp
  qed
  show ?thesis
    unfolding resident_def using old new by (simp add: n)
qed

lemma resident_dequeue:
  assumes "queue_inv q" "size_q q \<noteq> 0"
  shows "resident q = buffer q ! nat (front q)
           # resident (q\<lparr>front := (front q + 1) mod capacity q, size_q := size_q q - 1\<rparr>)"
proof -
  let ?c = "capacity q"
  have c: "0 < ?c" and s: "0 < size_q q" and f: "0 \<le> front q" "front q < ?c"
    using assms by (auto simp: queue_inv_def)
  obtain n where n: "nat (size_q q) = Suc n" "nat (size_q q - 1) = n"
    using s by (metis Suc_nat_eq_nat_zadd1 add.commute diff_add_cancel int_nat_eq nat_int zle_diff1_eq zless_imp_add1_zle zero_less_imp_eq_int)
  have "((front q + 1) mod ?c + int i) mod ?c = (front q + int (Suc i)) mod ?c" for i
    by (simp add: mod_add_left_eq add.assoc)
  then show ?thesis
    unfolding resident_def using f
    by (simp add: n upt_conv_Cons map_Suc_upt [symmetric] comp_def add.commute del: upt_Suc)
qed

subsection \<open>Histories refine the queue of the specification\<close>

lemma queue_inv_shutdown: "queue_inv (q\<lparr>is_shutdown := b\<rparr>) = queue_inv q"
  by (simp add: queue_inv_def)

lemma resident_shutdown: "resident (q\<lparr>is_shutdown := b\<rparr>) = resident q"
  by (simp add: resident_def)

lemma resident_empty: "size_q q = 0 \<Longrightarrow> resident q = []"
  by (simp add: resident_def)

lemma step_sim:
  assumes "queue_inv q"
  shows "\<exists>q'. step q x = Inr q' \<and> queue_inv q' \<and> capacity q' = capacity q \<and>
           (resident q', is_shutdown q') = spec_step (capacity q) (resident q, is_shutdown q) x"
proof (cases x)
  case (Enqueue d)
  have s: "0 \<le> size_q q" using assms by (simp add: queue_inv_def)
  consider "is_shutdown q" | "\<not> is_shutdown q" "size_q q = capacity q"
    | "\<not> is_shutdown q" "size_q q \<noteq> capacity q" by blast
  then show ?thesis
  proof cases
    case 1
    then show ?thesis using assms Enqueue by (simp add: enqueue_shutdown)
  next
    case 2
    then show ?thesis using assms Enqueue s by (simp add: enqueue_full length_resident)
  next
    case 3
    then show ?thesis
      using assms Enqueue s length_resident [OF s]
      by (simp add: enqueue_room enqueue_room_inv resident_enqueue)
  qed
next
  case Dequeue
  show ?thesis
  proof (cases "size_q q = 0")
    case True
    then show ?thesis
      using assms Dequeue
      by (cases "is_shutdown q")
         (simp_all add: dequeue_empty_shutdown dequeue_empty_blocks resident_empty)
  next
    case False
    then show ?thesis
      using assms Dequeue resident_dequeue [OF assms False]
      by (simp add: dequeue_item dequeue_item_inv)
  qed
next
  case Shutdown
  then show ?thesis
    using assms by (simp add: queue_shutdown_def queue_inv_shutdown resident_shutdown)
next
  case IsEmpty
  then show ?thesis using assms by simp
next
  case IsShutdown
  then show ?thesis using assms by simp
qed

lemma run_sim:
  assumes "queue_inv q"
  shows "\<exists>q'. run q xs = Inr q' \<and> queue_inv q' \<and> capacity q' = capacity q \<and>
           (resident q', is_shutdown q') = foldl (spec_step (capacity q)) (resident q, is_shutdown q) xs"
  using assms
proof (induction xs arbitrary: q)
  case Nil
  then show ?case by simp
next
  case (Cons x xs)
  from step_sim [OF Cons.prems, of x] obtain q1 where
    q1: "step q x = Inr q1" "queue_inv q1" "capacity q1 = capacity q"
      "(resident q1, is_shutdown q1) = spec_step (capacity q) (resident q, is_shutdown q) x"
    by blast
  from Cons.IH [OF q1(2)] show ?case
    using q1 by simp
qed

lemma buffer_slots: "0 \<le> c \<Longrightarrow> c \<le> INT_MAX \<Longrightarrow> size_t (c * int sizeof_voidp) div sizeof_voidp = nat c"
  by (simp add: size_t_def sizeof_voidp_def INT_MAX_def nat_mult_distrib)

lemma queue_init_Some:
  assumes "queue_init mq mb c heap = (Some q0, heap')"
  shows "mq \<and> heap' = heap + 2 \<and> (\<exists>junk. mb = Some junk \<and>
     q0 = \<lparr>buffer = map junk [0..<size_t (c * int sizeof_voidp) div sizeof_voidp],
           capacity = c, size_q = 0, front = 0, rear = - 1, is_shutdown = False\<rparr>)"
  using assms by (auto simp: queue_init_def Let_def split: if_splits option.splits)

lemma queue_init_inv:
  assumes "0 < c" "c \<le> INT_MAX" "queue_init mq mb c heap = (Some q0, heap')"
  shows "queue_inv q0 \<and> capacity q0 = c \<and> resident q0 = [] \<and> \<not> is_shutdown q0 \<and> size_q q0 = 0"
  using queue_init_Some [OF assms(3)] assms(1,2) buffer_slots [of c]
  by (auto simp: queue_inv_def resident_def)

lemma reachable:
  assumes "0 < c" "c \<le> INT_MAX" "queue_init mq mb c heap = (Some q0, heap')"
  shows "\<exists>q. run q0 xs = Inr q \<and> queue_inv q \<and> capacity q = c \<and>
           (resident q, is_shutdown q) = spec_run c xs"
  using run_sim [of q0 xs] queue_init_inv [OF assms]
  by (simp add: spec_run_def)

subsection \<open>Shutdown is never undone\<close>

lemma step_keeps_shutdown: "is_shutdown q \<Longrightarrow> step q x = Inr q' \<Longrightarrow> is_shutdown q'"
proof (cases x)
  case (Enqueue d)
  assume "is_shutdown q" "step q x = Inr q'"
  then show ?thesis using Enqueue by (simp add: enqueue_shutdown)
next
  case Dequeue
  assume "is_shutdown q" "step q x = Inr q'"
  then show ?thesis using Dequeue
    by (auto simp: dequeue_def wait_not_empty_eq split: if_splits sum.splits)
qed (auto simp: queue_shutdown_def)

lemma run_keeps_shutdown: "is_shutdown q \<Longrightarrow> run q xs = Inr q' \<Longrightarrow> is_shutdown q'"
proof (induction xs arbitrary: q)
  case Nil
  then show ?case by simp
next
  case (Cons x xs)
  then show ?case
    by (auto split: sum.splits dest: step_keeps_shutdown)
qed

lemma run_skips_enqueue:
  "is_shutdown q \<Longrightarrow> run q xs = run q (filter (\<lambda>x. \<not> is_enqueue x) xs)"
proof (induction xs arbitrary: q)
  case Nil
  then show ?case by simp
next
  case (Cons x xs)
  show ?case
  proof (cases "is_enqueue x")
    case True
    then obtain d where "x = Enqueue d" by (cases x) auto
    then show ?thesis using Cons by (simp add: enqueue_shutdown)
  next
    case False
    then show ?thesis
      using Cons by (auto split: sum.splits dest: step_keeps_shutdown)
  qed
qed

subsection \<open>One producer, one consumer\<close>

lemma enqueue_all_room:
  assumes "queue_inv q" "\<not> is_shutdown q" "size_q q + int (length xs) \<le> capacity q"
  shows "\<exists>q'. enqueue_all q xs = Some (Inr q') \<and> queue_inv q' \<and> \<not> is_shutdown q' \<and>
           capacity q' = capacity q \<and> resident q' = resident q @ xs"
  using assms
proof (induction xs arbitrary: q)
  case Nil
  then show ?case by simp
next
  case (Cons x xs)
  let ?q1 = "q\<lparr>rear := (rear q + 1) mod capacity q,
            buffer := (buffer q)[nat ((rear q + 1) mod capacity q) := x],
            size_q := size_q q + 1\<rparr>"
  have room: "size_q q \<noteq> capacity q" using Cons.prems(3) by simp
  have e: "enqueue q x = Some (Inr ?q1)"
    using enqueue_room [OF Cons.prems(1,2) room] .
  have i: "queue_inv ?q1" using enqueue_room_inv [OF Cons.prems(1) room] .
  have r: "resident ?q1 = resident q @ [x]" using resident_enqueue [OF Cons.prems(1) room] .
  have "\<not> is_shutdown ?q1" "size_q ?q1 + int (length xs) \<le> capacity ?q1"
    using Cons.prems(2,3) by simp_all
  from Cons.IH [OF i this] show ?case
    using e r by simp
qed

lemma dequeue_n_drain:
  assumes "queue_inv q" "int n \<le> size_q q"
  shows "\<exists>q'. dequeue_n q n = Some (Inr (take n (resident q), q')) \<and> queue_inv q' \<and>
           is_shutdown q' = is_shutdown q \<and> capacity q' = capacity q \<and>
           size_q q' = size_q q - int n \<and> resident q' = drop n (resident q)"
  using assms
proof (induction n arbitrary: q)
  case 0
  then show ?case by simp
next
  case (Suc n)
  let ?q1 = "q\<lparr>front := (front q + 1) mod capacity q, size_q := size_q q - 1\<rparr>"
  have ne: "size_q q \<noteq> 0" using Suc.prems(2) by simp
  have d: "dequeue q = Some (Inr (buffer q ! nat (front q), ?q1))"
    using dequeue_item [OF Suc.prems(1) ne] .
  have i: "queue_inv ?q1" using dequeue_item_inv [OF Suc.prems(1) ne] .
  have r: "resident q = buffer q ! nat (front q) # resident ?q1"
    using resident_dequeue [OF Suc.prems(1) ne] .
  have "int n \<le> size_q ?q1" using Suc.prems(2) by simp
  from Suc.IH [OF i this] obtain q' where
    q': "dequeue_n ?q1 n = Some (Inr (take n (resident ?q1), q'))" "queue_inv q'"
      "is_shutdown q' = is_shutdown ?q1" "capacity q' = capacity ?q1"
      "size_q q' = size_q ?q1 - int n" "resident q' = drop n (resident ?q1)"
    by blast
  have "dequeue_n q (Suc n) = Some (Inr (take (Suc n) (resident q), q'))"
    using d q'(1) by (subst r) simp
  moreover have "resident q' = drop (Suc n) (resident q)"
    using q'(6) by (subst r) simp
  ultimately show ?case using q' by simp
qed

lemma dequeue_n_closed:
  "size_q q = 0 \<Longrightarrow> is_shutdown q \<Longrightarrow> dequeue_n q m = Some (Inr (replicate m NULL, q))"
  by (induction m) (simp_all add: dequeue_empty_shutdown)

subsection \<open>What dequeue returns\<close>

lemma returned_item:
  assumes "queue_inv q" "size_q q \<noteq> 0"
  shows "returned (dequeue q) = Some (hd (resident q))"
  using dequeue_item [OF assms] resident_dequeue [OF assms]
  by (simp add: returned_def)

lemma returned_closed: "size_q e = 0 \<Longrightarrow> is_shutdown e \<Longrightarrow> returned (dequeue e) = Some NULL"
  by (simp add: returned_def dequeue_empty_shutdown)

subsection \<open>After shutdown no call waits\<close>

lemma no_wait_after_shutdown:
  "is_shutdown q \<Longrightarrow> wait_not_full q = Some q \<and> wait_not_empty q = Some q"
  by (simp add: wait_not_full_eq wait_not_empty_eq)

lemma calls_return_after_shutdown:
  assumes "queue_inv q" "is_shutdown q"
  shows "enqueue q d = Some (Inr q) \<and> (\<exists>v q'. dequeue q = Some (Inr (v, q')))"
  using assms dequeue_item [OF assms(1)]
  by (cases "size_q q = 0") (simp_all add: enqueue_shutdown dequeue_empty_shutdown)

subsection \<open>Non-positive capacities\<close>

lemma negative_capacity_request:
  assumes "INT_MIN \<le> c" "c < 0"
  shows "PTRDIFF_MAX < size_t (c * int sizeof_voidp)"
proof -
  have "(c * 8) mod 18446744073709551616 = (c * 8 + 18446744073709551616) mod 18446744073709551616"
    by simp
  also have "\<dots> = c * 8 + 18446744073709551616"
    using assms unfolding INT_MIN_def by (intro mod_pos_pos_trivial) simp_all
  finally have "9223372036854775807 < (c * 8) mod 18446744073709551616"
    using assms unfolding INT_MIN_def by simp
  then show ?thesis
    by (simp add: size_t_def sizeof_voidp_def PTRDIFF_MAX_def)
qed

lemma zero_capacity_step:
  assumes "capacity q = 0" "size_q q = 0"
  shows "\<exists>q'. step q x = Inr q' \<and> capacity q' = 0 \<and> size_q q' = 0 \<and> buffer q' = buffer q"
proof (cases x)
  case (Enqueue d)
  then show ?thesis
    using assms by (cases "is_shutdown q") (simp_all add: enqueue_shutdown enqueue_full)
next
  case Dequeue
  then show ?thesis
    using assms
    by (cases "is_shutdown q") (simp_all add: dequeue_empty_shutdown dequeue_empty_blocks)
next
  case Shutdown
  then show ?thesis using assms by (simp add: queue_shutdown_def)
qed (use assms in simp_all)

lemma zero_capacity_run:
  assumes "capacity q = 0" "size_q q = 0"
  shows "\<exists>q'. run q xs = Inr q' \<and> capacity q' = 0 \<and> size_q q' = 0 \<and> buffer q' = buffer q"
  using assms
proof (induction xs arbitrary: q)
  case Nil
  then show ?case by simp
next
  case (Cons x xs)
  from zero_capacity_step [OF Cons.prems, of x] obtain q1 where
    q1: "step q x = Inr q1" "capacity q1 = 0" "size_q q1 = 0" "buffer q1 = buffer q"
    by blast
  from Cons.IH [OF q1(2,3)] show ?case
    using q1(1,4) by simp
qed

subsection \<open>A worked example\<close>

text \<open>
  A queue of capacity 2: two items go in, a third call finds the queue full and waits,
  the oldest item comes out, and a null pointer goes in.
\<close>

lemma queue_init_example:
  "queue_init True (Some (\<lambda>_. NULL)) 2 0
     = (Some \<lparr>buffer = [NULL, NULL], capacity = 2, size_q = 0, front = 0, rear = - 1,
          is_shutdown = False\<rparr>, 2)"
  by (simp add: queue_init_def size_t_def sizeof_voidp_def upt_rec)

lemmas eval_simps = enqueue_def dequeue_def wait_not_full_eq wait_not_empty_eq c_add_def c_rem_def
  store_def load_def INT_MAX_def INT_MIN_def queue_shutdown_def smod_int_alt_def

lemma run_example:
  "run \<lparr>buffer = [NULL, NULL], capacity = 2, size_q = 0, front = 0, rear = - 1,
          is_shutdown = False\<rparr>
     [Enqueue (Addr 10), Enqueue (Addr 20), Enqueue (Addr 30), Dequeue, Enqueue NULL]
   = Inr \<lparr>buffer = [NULL, Addr 20], capacity = 2, size_q = 2, front = 1, rear = 0,
          is_shutdown = False\<rparr>"
  by (simp add: eval_simps)

lemma spec_run_example:
  "spec_run 2 [Enqueue (Addr 10), Enqueue (Addr 20), Enqueue (Addr 30), Dequeue, Enqueue NULL]
     = ([Addr 20, NULL], False)"
  by (simp add: spec_run_def)

section \<open>The claims\<close>

subsection \<open>C1: first in, first out\<close>

text \<open>
  Claim C1 (FIFO order). Take a queue built by \<^verbatim>\<open>queue_init\<close> with a positive capacity
  \<open>c\<close>, after any history that leaves it empty and not shut down. Enqueueing \<open>N \<le> c\<close>
  values one after the other succeeds every time, and the \<open>N\<close> calls of \<^verbatim>\<open>dequeue\<close>
  that follow return exactly these values in the order of their insertion. The values
  need not even be distinct.
\<close>

theorem fifo_order:
  assumes "0 < c" "c \<le> INT_MAX"
    and "queue_init malloc_q malloc_buf c heap = (Some q0, heap')"
    and "run q0 history = Inr q" "size_q q = 0" "\<not> is_shutdown q"
    and "int (length xs) \<le> c"
  shows "\<exists>q1 q2. enqueue_all q xs = Some (Inr q1) \<and>
           dequeue_n q1 (length xs) = Some (Inr (xs, q2))"
proof -
  from reachable [OF assms(1-3), of history] assms(4)
  have q: "queue_inv q" "capacity q = c" by auto
  have "resident q = []" using assms(5) by (rule resident_empty)
  with enqueue_all_room [OF q(1) assms(6), of xs] assms(5,7) q(2)
  obtain q1 where q1: "enqueue_all q xs = Some (Inr q1)" "queue_inv q1" "resident q1 = xs"
    by auto
  have "int (length xs) \<le> size_q q1"
    using length_resident [of q1] q1(2,3) by (simp add: queue_inv_def)
  from dequeue_n_drain [OF q1(2) this] q1(1,3) show ?thesis by auto
qed

theorem fifo_order_witness:
  "enqueue_all \<lparr>buffer = [Addr 10, NULL], capacity = 2, size_q = 0, front = 1, rear = 0,
       is_shutdown = False\<rparr> [Addr 20, Addr 30]
     = Some (Inr \<lparr>buffer = [Addr 30, Addr 20], capacity = 2, size_q = 2, front = 1, rear = 0,
       is_shutdown = False\<rparr>) \<and>
   dequeue_n \<lparr>buffer = [Addr 30, Addr 20], capacity = 2, size_q = 2, front = 1, rear = 0,
       is_shutdown = False\<rparr> 2
     = Some (Inr ([Addr 20, Addr 30], \<lparr>buffer = [Addr 30, Addr 20], capacity = 2, size_q = 0,
       front = 1, rear = 0, is_shutdown = False\<rparr>))"
proof -
  have r: "run \<lparr>buffer = [NULL, NULL], capacity = 2, size_q = 0, front = 0, rear = - 1,
          is_shutdown = False\<rparr> [Enqueue (Addr 10), Dequeue]
      = Inr \<lparr>buffer = [Addr 10, NULL], capacity = 2, size_q = 0, front = 1, rear = 0,
          is_shutdown = False\<rparr>"
    by (simp add: eval_simps)
  have e: "enqueue_all \<lparr>buffer = [Addr 10, NULL], capacity = 2, size_q = 0, front = 1, rear = 0,
       is_shutdown = False\<rparr> [Addr 20, Addr 30]
     = Some (Inr \<lparr>buffer = [Addr 30, Addr 20], capacity = 2, size_q = 2, front = 1, rear = 0,
       is_shutdown = False\<rparr>)"
    by (simp add: eval_simps)
  have d: "dequeue_n \<lparr>buffer = [Addr 30, Addr 20], capacity = 2, size_q = 2, front = 1,
       rear = 0, is_shutdown = False\<rparr> 2
     = Some (Inr ([Addr 20, Addr 30], \<lparr>buffer = [Addr 30, Addr 20], capacity = 2, size_q = 0,
       front = 1, rear = 0, is_shutdown = False\<rparr>))"
    by (simp add: eval_simps eval_nat_numeral)
  from fifo_order [OF _ _ queue_init_example r, of "[Addr 20, Addr 30]"]
  show ?thesis
    unfolding e d by (simp add: INT_MAX_def)
qed

subsection \<open>C2: drain, then closed\<close>

text \<open>
  Claim C2 (drain-then-close). Let the queue hold \<open>k\<close> items when
  \<^verbatim>\<open>queue_shutdown\<close> is called, after any history of a queue built with a positive
  capacity. The next \<open>k\<close> calls of \<^verbatim>\<open>dequeue\<close> return these \<open>k\<close> items, oldest first:
  they are the live items of the specification's queue, in the order of their insertion.
  Every later call, however many, returns at once with \<^verbatim>\<open>NULL\<close> and leaves the queue
  as it is.
\<close>

theorem drain_then_close:
  assumes "0 < c" "c \<le> INT_MAX"
    and "queue_init malloc_q malloc_buf c heap = (Some q0, heap')"
    and "run q0 history = Inr q"
  shows "\<exists>q'. int (length (fst (spec_run c history))) = size_q q \<and>
           dequeue_n (fst (queue_shutdown q)) (nat (size_q q))
             = Some (Inr (fst (spec_run c history), q')) \<and>
           (\<forall>m. dequeue_n q' m = Some (Inr (replicate m NULL, q')))"
proof -
  let ?q1 = "fst (queue_shutdown q)"
  from reachable [OF assms(1-3), of history] assms(4)
  have q: "queue_inv q" "resident q = fst (spec_run c history)"
    by (auto simp: fst_def split: prod.splits)
  have s: "0 \<le> size_q q" using q(1) by (simp add: queue_inv_def)
  have q1: "queue_inv ?q1" "resident ?q1 = resident q" "size_q ?q1 = size_q q" "is_shutdown ?q1"
    using q(1) by (simp_all add: queue_shutdown_def queue_inv_shutdown resident_shutdown)
  have "int (nat (size_q q)) \<le> size_q ?q1" using s q1(3) by simp
  from dequeue_n_drain [OF q1(1) this] obtain q' where
    q': "dequeue_n ?q1 (nat (size_q q)) = Some (Inr (take (nat (size_q q)) (resident ?q1), q'))"
      "is_shutdown q' = is_shutdown ?q1" "size_q q' = size_q ?q1 - int (nat (size_q q))"
    by blast
  have len: "int (length (resident q)) = size_q q" using s by (rule length_resident)
  then have "take (nat (size_q q)) (resident ?q1) = resident q"
    using q1(2) by simp
  moreover have "size_q q' = 0" "is_shutdown q'" using q' q1 s by simp_all
  ultimately show ?thesis
    using q' q(2) len dequeue_n_closed [of q'] by auto
qed

theorem drain_then_close_witness:
  "\<exists>q'. dequeue_n (fst (queue_shutdown \<lparr>buffer = [NULL, Addr 20], capacity = 2, size_q = 2,
            front = 1, rear = 0, is_shutdown = False\<rparr>)) 2 = Some (Inr ([Addr 20, NULL], q')) \<and>
        (\<forall>m. dequeue_n q' m = Some (Inr (replicate m NULL, q')))"
  using drain_then_close [OF _ _ queue_init_example run_example]
  by (simp add: INT_MAX_def spec_run_example)



subsection \<open>C3: enqueue after shutdown\<close>

text \<open>
  Claim C3. On a queue whose shutdown flag is set, \<^verbatim>\<open>enqueue\<close> returns, inserts
  nothing and leaves every field of the queue as it was; and no item is accepted after
  shutdown: a history that starts in a shut-down queue ends as the same history with
  its enqueue calls taken out.
\<close>

theorem enqueue_after_shutdown:
  "is_shutdown q \<Longrightarrow>
     enqueue q d = Some (Inr q) \<and> run q xs = run q (filter (\<lambda>x. \<not> is_enqueue x) xs)"
  using enqueue_shutdown run_skips_enqueue by blast

theorem enqueue_after_shutdown_witness:
  "is_shutdown \<lparr>buffer = [Addr 1, NULL], capacity = 2, size_q = 1, front = 0, rear = 0,
       is_shutdown = True\<rparr> \<and>
   enqueue \<lparr>buffer = [Addr 1, NULL], capacity = 2, size_q = 1, front = 0, rear = 0,
       is_shutdown = True\<rparr> (Addr 5)
     = Some (Inr \<lparr>buffer = [Addr 1, NULL], capacity = 2, size_q = 1, front = 0, rear = 0,
       is_shutdown = True\<rparr>) \<and>
   run \<lparr>buffer = [Addr 1, NULL], capacity = 2, size_q = 1, front = 0, rear = 0,
       is_shutdown = True\<rparr> [Enqueue (Addr 5), Dequeue, Enqueue (Addr 6)]
     = run \<lparr>buffer = [Addr 1, NULL], capacity = 2, size_q = 1, front = 0, rear = 0,
       is_shutdown = True\<rparr> [Dequeue]"
proof -
  have h: "is_shutdown \<lparr>buffer = [Addr 1, NULL], capacity = 2, size_q = 1, front = 0,
       rear = 0, is_shutdown = True\<rparr>"
    by simp
  have f: "filter (\<lambda>x. \<not> is_enqueue x) [Enqueue (Addr 5), Dequeue, Enqueue (Addr 6)] = [Dequeue]"
    by simp
  show ?thesis
    using h enqueue_after_shutdown [OF h, of "Addr 5" "[Enqueue (Addr 5), Dequeue, Enqueue (Addr 6)]"]
    unfolding f by blast
qed

subsection \<open>C4: bounds and live items\<close>

text \<open>
  Claim C4 (bounds invariant). After every history of Enqueue, Dequeue, Shutdown,
  IsEmpty and IsShutdown calls on a queue built with a positive capacity, no call has
  run into undefined behaviour, \<open>0 \<le> size \<le> capacity\<close>, and the \<open>size\<close> slots at the
  indices \<open>front\<close>, \<open>front + 1\<close>, ... modulo \<open>capacity\<close> hold exactly the live items:
  the items of the specification's queue after the same history, in the same order.
\<close>

theorem bounds_invariant:
  assumes "0 < c" "c \<le> INT_MAX"
    and "queue_init malloc_q malloc_buf c heap = (Some q0, heap')"
  shows "\<exists>q. run q0 history = Inr q \<and> capacity q = c \<and>
           0 \<le> size_q q \<and> size_q q \<le> capacity q \<and>
           int (length (resident q)) = size_q q \<and>
           resident q = fst (spec_run c history)"
proof -
  from reachable [OF assms, of history] obtain q where
    q: "run q0 history = Inr q" "queue_inv q" "capacity q = c"
      "(resident q, is_shutdown q) = spec_run c history"
    by blast
  have "0 \<le> size_q q" "size_q q \<le> capacity q" using q(2) by (simp_all add: queue_inv_def)
  moreover have "resident q = fst (spec_run c history)" using q(4) [symmetric] by simp
  ultimately show ?thesis using q(1,3) length_resident [of q] by simp
qed

theorem bounds_invariant_witness:
  "run \<lparr>buffer = [NULL, NULL], capacity = 2, size_q = 0, front = 0, rear = - 1,
          is_shutdown = False\<rparr>
     [Enqueue (Addr 10), Enqueue (Addr 20), Enqueue (Addr 30), Dequeue, Enqueue NULL]
   = Inr \<lparr>buffer = [NULL, Addr 20], capacity = 2, size_q = 2, front = 1, rear = 0,
          is_shutdown = False\<rparr> \<and>
   resident \<lparr>buffer = [NULL, Addr 20], capacity = 2, size_q = 2, front = 1, rear = 0,
          is_shutdown = False\<rparr> = [Addr 20, NULL]"
  using bounds_invariant [OF _ _ queue_init_example,
      of "[Enqueue (Addr 10), Enqueue (Addr 20), Enqueue (Addr 30), Dequeue, Enqueue NULL]"]
  unfolding run_example spec_run_example
  by (simp add: INT_MAX_def)

subsection \<open>C5: shutdown is monotone and idempotent\<close>

text \<open>
  Claim C5. The shutdown flag is clear in a queue that \<^verbatim>\<open>queue_init\<close> returns; it is
  set by \<^verbatim>\<open>queue_shutdown\<close>; once set, no history of calls clears it; and a second
  \<^verbatim>\<open>queue_shutdown\<close> leaves the queue in the state the first one produced.
\<close>

theorem shutdown_monotone:
  "(queue_init malloc_q malloc_buf c heap = (Some q0, heap') \<longrightarrow> \<not> is_shutdown q0) \<and>
   is_shutdown (fst (queue_shutdown q)) \<and>
   (is_shutdown q \<and> run q history = Inr q' \<longrightarrow> is_shutdown q') \<and>
   fst (queue_shutdown (fst (queue_shutdown q))) = fst (queue_shutdown q)"
  using queue_init_Some [of malloc_q malloc_buf c heap q0 heap'] run_keeps_shutdown [of q history q']
  by (auto simp: queue_shutdown_def)

theorem shutdown_monotone_witness:
  "\<not> is_shutdown \<lparr>buffer = [NULL, NULL], capacity = 2, size_q = 0, front = 0, rear = - 1,
          is_shutdown = False\<rparr> \<and>
   run (fst (queue_shutdown \<lparr>buffer = [NULL, Addr 20], capacity = 2, size_q = 2, front = 1,
          rear = 0, is_shutdown = False\<rparr>))
       [Enqueue (Addr 40), Dequeue, IsEmpty, Shutdown, IsShutdown, Dequeue, Dequeue]
     = Inr \<lparr>buffer = [NULL, Addr 20], capacity = 2, size_q = 0, front = 1,
          rear = 0, is_shutdown = True\<rparr> \<and>
   is_shutdown \<lparr>buffer = [NULL, Addr 20], capacity = 2, size_q = 0, front = 1,
          rear = 0, is_shutdown = True\<rparr>"
proof -
  have r: "run (fst (queue_shutdown \<lparr>buffer = [NULL, Addr 20], capacity = 2, size_q = 2,
          front = 1, rear = 0, is_shutdown = False\<rparr>))
       [Enqueue (Addr 40), Dequeue, IsEmpty, Shutdown, IsShutdown, Dequeue, Dequeue]
     = Inr \<lparr>buffer = [NULL, Addr 20], capacity = 2, size_q = 0, front = 1,
          rear = 0, is_shutdown = True\<rparr>"
    by (simp add: eval_simps)
  show ?thesis
    using shutdown_monotone [of True "Some (\<lambda>_. NULL)" 2 0 _ 2
        "\<lparr>buffer = [NULL, Addr 20], capacity = 2, size_q = 2, front = 1,
          rear = 0, is_shutdown = False\<rparr>"]
      shutdown_monotone [of _ _ _ _ _ _ "fst (queue_shutdown \<lparr>buffer = [NULL, Addr 20],
          capacity = 2, size_q = 2, front = 1, rear = 0, is_shutdown = False\<rparr>)"
        "[Enqueue (Addr 40), Dequeue, IsEmpty, Shutdown, IsShutdown, Dequeue, Dequeue]"]
    unfolding r queue_init_example by simp
qed

subsection \<open>C6: the value returned for an empty queue\<close>

text \<open>
  Claim C6 says that the value \<^verbatim>\<open>dequeue\<close> returns for an empty, shut-down queue
  differs from what it returns when it removes an item, whatever the item, a null
  payload included. The code returns \<^verbatim>\<open>NULL\<close> for the empty queue and the stored
  pointer otherwise, and \<^verbatim>\<open>enqueue\<close> stores any pointer: a stored \<^verbatim>\<open>NULL\<close> comes back
  as \<^verbatim>\<open>NULL\<close>. Here a null pointer is enqueued and accepted, and the dequeue that
  removes it returns what a dequeue on an empty, shut-down queue returns.
\<close>

theorem sentinel_counterexample:
  "enqueue \<lparr>buffer = [Addr 10], capacity = 1, size_q = 0, front = 0, rear = - 1,
       is_shutdown = False\<rparr> NULL
     = Some (Inr \<lparr>buffer = [NULL], capacity = 1, size_q = 1, front = 0, rear = 0,
       is_shutdown = False\<rparr>) \<and>
   dequeue \<lparr>buffer = [NULL], capacity = 1, size_q = 1, front = 0, rear = 0,
       is_shutdown = False\<rparr>
     = Some (Inr (NULL, \<lparr>buffer = [NULL], capacity = 1, size_q = 0, front = 0, rear = 0,
       is_shutdown = False\<rparr>)) \<and>
   returned (dequeue \<lparr>buffer = [NULL], capacity = 1, size_q = 1, front = 0, rear = 0,
       is_shutdown = False\<rparr>)
     = returned (dequeue \<lparr>buffer = [NULL], capacity = 1, size_q = 0, front = 0, rear = 0,
       is_shutdown = True\<rparr>)"
  by (simp add: eval_simps returned_def)

text \<open>
  Claim C6 as amended: a dequeue that removes an item returns this item, the oldest
  live one; a dequeue on an empty, shut-down queue returns \<^verbatim>\<open>NULL\<close>; so the two results
  differ exactly when the item removed is not \<^verbatim>\<open>NULL\<close>.
\<close>

theorem sentinel_non_null:
  assumes "0 < c" "c \<le> INT_MAX"
    and "queue_init malloc_q malloc_buf c heap = (Some q0, heap')"
    and "run q0 history = Inr q" "size_q q \<noteq> 0"
    and "size_q e = 0" "is_shutdown e"
  shows "returned (dequeue q) = Some (hd (fst (spec_run c history))) \<and>
         returned (dequeue e) = Some NULL \<and>
         (returned (dequeue q) \<noteq> returned (dequeue e)
            \<longleftrightarrow> hd (fst (spec_run c history)) \<noteq> NULL)"
proof -
  from reachable [OF assms(1-3), of history] assms(4)
  have q: "queue_inv q" "resident q = fst (spec_run c history)"
    by (auto simp: fst_def split: prod.splits)
  show ?thesis
    using returned_item [OF q(1) assms(5)] returned_closed [OF assms(6,7)] q(2) by simp
qed

theorem sentinel_non_null_witness:
  "returned (dequeue \<lparr>buffer = [NULL, Addr 20], capacity = 2, size_q = 2, front = 1, rear = 0,
          is_shutdown = False\<rparr>) = Some (Addr 20) \<and>
   returned (dequeue \<lparr>buffer = [NULL, Addr 20], capacity = 2, size_q = 0, front = 1, rear = 0,
          is_shutdown = True\<rparr>) = Some NULL"
  using sentinel_non_null [OF _ _ queue_init_example run_example,
      of "\<lparr>buffer = [NULL, Addr 20], capacity = 2, size_q = 0, front = 1, rear = 0,
          is_shutdown = True\<rparr>"]
  unfolding spec_run_example by (simp add: INT_MAX_def)

subsection \<open>C7: construction\<close>

text \<open>
  Claim C7. For a positive capacity, \<^verbatim>\<open>queue_init\<close> succeeds exactly when both
  allocations succeed. The queue it returns has the capacity asked for and as many
  slots, \<open>size = 0\<close>, \<open>front = 0\<close>, \<open>rear\<close> one before \<open>front\<close>, the shutdown flag
  clear; \<^verbatim>\<open>is_empty\<close> is true of it and \<^verbatim>\<open>is_shutdown\<close> false. When an allocation fails
  the result is the \<^verbatim>\<open>NULL\<close> handle and the heap holds the blocks it held before the
  call: nothing of the queue remains.
\<close>

theorem construct:
  assumes "0 < c" "c \<le> INT_MAX"
  shows "(malloc_q \<and> malloc_buf \<noteq> None \<longrightarrow>
           (\<exists>q. queue_init malloc_q malloc_buf c heap = (Some q, heap + 2) \<and>
              capacity q = c \<and> length (buffer q) = nat c \<and>
              size_q q = 0 \<and> front q = 0 \<and> rear q = front q - 1 \<and> \<not> is_shutdown q \<and>
              is_empty q \<and> \<not> is_shutdown_query q)) \<and>
         (\<not> (malloc_q \<and> malloc_buf \<noteq> None) \<longrightarrow>
           queue_init malloc_q malloc_buf c heap = (None, heap))"
  using assms buffer_slots [of c]
  by (auto simp: queue_init_def is_empty_def is_shutdown_query_def)

theorem construct_witness:
  "queue_init True (Some (\<lambda>_. NULL)) 2 0
     = (Some \<lparr>buffer = [NULL, NULL], capacity = 2, size_q = 0, front = 0, rear = - 1,
          is_shutdown = False\<rparr>, 2) \<and>
   is_empty \<lparr>buffer = [NULL, NULL], capacity = 2, size_q = 0, front = 0, rear = - 1,
          is_shutdown = False\<rparr> \<and>
   queue_init True None 2 0 = (None, 0) \<and>
   queue_init False (Some (\<lambda>_. NULL)) 2 0 = (None, 0)"
  using construct [of 2 True "Some (\<lambda>_. NULL)" 0] construct [of 2 True None 0]
    construct [of 2 False "Some (\<lambda>_. NULL)" 0]
  unfolding queue_init_example by (simp add: INT_MAX_def)

subsection \<open>C8: non-positive capacities\<close>

text \<open>
  Claim C8 says that for every capacity \<open>c \<le> 0\<close> \<^verbatim>\<open>queue_init\<close> can return a queue, whose
  operations then misbehave, instead of reporting a failure. \<^verbatim>\<open>queue_init\<close> does not
  look at the sign of the capacity, but for a negative capacity the product
  \<^verbatim>\<open>capacity * sizeof(void*)\<close> wraps in \<^verbatim>\<open>size_t\<close> to a request that no allocator
  answers. Here the capacity is \<open>- 1\<close>, the structure is allocated and the environment
  has a block to give: the request is for \<open>2 ^ 64 - 8\<close> bytes, \<^verbatim>\<open>malloc\<close> returns
  \<^verbatim>\<open>NULL\<close>, the structure is freed and \<^verbatim>\<open>queue_init\<close> returns the \<^verbatim>\<open>NULL\<close> handle, which
  is the failure report.
\<close>

theorem negative_capacity_counterexample:
  "size_t (- 1 * int sizeof_voidp) = 18446744073709551608 \<and>
   malloc (Some Addr) (size_t (- 1 * int sizeof_voidp)) = None \<and>
   queue_init True (malloc (Some Addr) (size_t (- 1 * int sizeof_voidp))) (- 1) 0
     = (None, 0)"
  by (simp add: queue_init_def malloc_def size_t_def sizeof_voidp_def PTRDIFF_MAX_def)

text \<open>
  Claim C8 as amended. \<^verbatim>\<open>queue_init\<close> performs no check that the capacity is positive.
  For the capacity \<open>0\<close> it returns a queue whenever its two allocations succeed, and
  this queue is degenerate: its buffer has no slot, neither \<^verbatim>\<open>enqueue\<close> nor \<^verbatim>\<open>dequeue\<close>
  ever returns while it is open, and after every history of calls it is still empty,
  no call having run into undefined behaviour. For a negative capacity the request for
  the buffer exceeds what the allocator gives and \<^verbatim>\<open>queue_init\<close> returns the \<^verbatim>\<open>NULL\<close>
  handle, the heap holding the blocks it held before.
\<close>

theorem zero_capacity_not_validated:
  "(malloc_q \<and> env \<noteq> None \<longrightarrow>
      (\<exists>q0. queue_init malloc_q (malloc env (size_t (0 * int sizeof_voidp))) 0 heap
              = (Some q0, heap + 2) \<and>
         capacity q0 = 0 \<and> buffer q0 = [] \<and> size_q q0 = 0 \<and> \<not> is_shutdown q0 \<and>
         enqueue q0 d = None \<and> dequeue q0 = None \<and>
         (\<exists>q. run q0 history = Inr q \<and> capacity q = 0 \<and> size_q q = 0 \<and> buffer q = []))) \<and>
   (INT_MIN \<le> c \<and> c < 0 \<longrightarrow>
      queue_init malloc_q (malloc env (size_t (c * int sizeof_voidp))) c heap = (None, heap))"
proof (intro conjI impI)
  assume ok: "malloc_q \<and> env \<noteq> None"
  then obtain junk where junk: "env = Some junk" by auto
  let ?q0 = "\<lparr>buffer = [], capacity = 0, size_q = 0, front = 0, rear = - 1,
      is_shutdown = False\<rparr>"
  have "queue_init malloc_q (malloc env (size_t (0 * int sizeof_voidp))) 0 heap
      = (Some ?q0, heap + 2)"
    using ok junk by (simp add: queue_init_def malloc_def size_t_def PTRDIFF_MAX_def)
  moreover have "enqueue ?q0 d = None" by (simp add: enqueue_full)
  moreover have "dequeue ?q0 = None" by (simp add: dequeue_empty_blocks)
  moreover have "\<exists>q. run ?q0 history = Inr q \<and> capacity q = 0 \<and> size_q q = 0 \<and> buffer q = []"
    using zero_capacity_run [of ?q0 history] by simp
  ultimately show "\<exists>q0. queue_init malloc_q (malloc env (size_t (0 * int sizeof_voidp))) 0 heap
              = (Some q0, heap + 2) \<and>
         capacity q0 = 0 \<and> buffer q0 = [] \<and> size_q q0 = 0 \<and> \<not> is_shutdown q0 \<and>
         enqueue q0 d = None \<and> dequeue q0 = None \<and>
         (\<exists>q. run q0 history = Inr q \<and> capacity q = 0 \<and> size_q q = 0 \<and> buffer q = [])"
    by simp
next
  assume "INT_MIN \<le> c \<and> c < 0"
  then have "PTRDIFF_MAX < size_t (c * int sizeof_voidp)"
    using negative_capacity_request by blast
  then show "queue_init malloc_q (malloc env (size_t (c * int sizeof_voidp))) c heap = (None, heap)"
    by (simp add: queue_init_def malloc_def)
qed

theorem zero_capacity_not_validated_witness:
  "queue_init True (malloc (Some (\<lambda>_. NULL)) (size_t (0 * int sizeof_voidp))) 0 0
     = (Some \<lparr>buffer = [], capacity = 0, size_q = 0, front = 0, rear = - 1,
          is_shutdown = False\<rparr>, 2) \<and>
   enqueue \<lparr>buffer = [], capacity = 0, size_q = 0, front = 0, rear = - 1,
          is_shutdown = False\<rparr> (Addr 10) = None \<and>
   dequeue \<lparr>buffer = [], capacity = 0, size_q = 0, front = 0, rear = - 1,
          is_shutdown = False\<rparr> = None \<and>
   run \<lparr>buffer = [], capacity = 0, size_q = 0, front = 0, rear = - 1,
          is_shutdown = False\<rparr> [Enqueue (Addr 10), Dequeue, Shutdown, Enqueue (Addr 20), Dequeue]
     = Inr \<lparr>buffer = [], capacity = 0, size_q = 0, front = 0, rear = - 1,
          is_shutdown = True\<rparr> \<and>
   queue_init True (malloc (Some (\<lambda>_. NULL)) (size_t (- 3 * int sizeof_voidp))) (- 3) 0
     = (None, 0)"
proof -
  have z: "queue_init True (malloc (Some (\<lambda>_. NULL)) (size_t (0 * int sizeof_voidp))) 0 0
     = (Some \<lparr>buffer = [], capacity = 0, size_q = 0, front = 0, rear = - 1,
          is_shutdown = False\<rparr>, 2)"
    by (simp add: queue_init_def malloc_def size_t_def PTRDIFF_MAX_def)
  have r: "run \<lparr>buffer = [], capacity = 0, size_q = 0, front = 0, rear = - 1,
          is_shutdown = False\<rparr> [Enqueue (Addr 10), Dequeue, Shutdown, Enqueue (Addr 20), Dequeue]
     = Inr \<lparr>buffer = [], capacity = 0, size_q = 0, front = 0, rear = - 1,
          is_shutdown = True\<rparr>"
    by (simp add: eval_simps)
  show ?thesis
    using zero_capacity_not_validated [of True "Some (\<lambda>_. NULL)" 0 "Addr 10"
        "[Enqueue (Addr 10), Dequeue, Shutdown, Enqueue (Addr 20), Dequeue]" "- 3"]
    unfolding z r by (simp add: INT_MIN_def)
qed

subsection \<open>C10: the indices of the circular buffer\<close>

text \<open>
  Claim C10. After every history of calls on a queue built with a positive capacity,
  \<open>0 \<le> front < capacity\<close>; when the queue is not empty, \<open>rear\<close> is
  \<open>(front + size - 1) mod capacity\<close>, the slot of the item enqueued last; when it is
  empty, \<open>rear\<close> is \<open>(front - 1) mod capacity\<close> or still has its initial value \<open>- 1\<close>.
\<close>

theorem index_coherence:
  assumes "0 < c" "c \<le> INT_MAX"
    and "queue_init malloc_q malloc_buf c heap = (Some q0, heap')"
  shows "\<exists>q. run q0 history = Inr q \<and> capacity q = c \<and>
           0 \<le> front q \<and> front q < capacity q \<and>
           (0 < size_q q \<longrightarrow> rear q = (front q + size_q q - 1) mod capacity q) \<and>
           (size_q q = 0 \<longrightarrow> rear q = (front q - 1) mod capacity q \<or> rear q = - 1)"
proof -
  from reachable [OF assms, of history] obtain q where
    q: "run q0 history = Inr q" "queue_inv q" "capacity q = c"
    by blast
  have inv: "0 < capacity q" "0 \<le> front q" "front q < capacity q" "- 1 \<le> rear q"
    "rear q < capacity q" "(rear q + 1) mod capacity q = (front q + size_q q) mod capacity q"
    "rear q = - 1 \<longrightarrow> size_q q = 0"
    using q(2) by (simp_all add: queue_inv_def)
  have r: "rear q = (front q + size_q q - 1) mod capacity q" if "rear q \<noteq> - 1"
  proof -
    have "0 \<le> rear q" using that inv(4) by simp
    then have "rear q = (rear q + 1 - 1) mod capacity q" using inv(5) by simp
    also have "\<dots> = ((rear q + 1) mod capacity q - 1) mod capacity q"
      by (simp only: mod_diff_left_eq)
    also have "\<dots> = (front q + size_q q - 1) mod capacity q"
      by (simp only: inv(6) mod_diff_left_eq)
    finally show ?thesis .
  qed
  have "0 < size_q q \<longrightarrow> rear q = (front q + size_q q - 1) mod capacity q"
    using r inv(7) by auto
  moreover have "size_q q = 0 \<longrightarrow> rear q = (front q - 1) mod capacity q \<or> rear q = - 1"
    using r by auto
  ultimately show ?thesis using q(1,3) inv(2,3) by blast
qed

theorem index_coherence_witness:
  "run \<lparr>buffer = [NULL, NULL], capacity = 2, size_q = 0, front = 0, rear = - 1,
          is_shutdown = False\<rparr>
     [Enqueue (Addr 10), Enqueue (Addr 20), Enqueue (Addr 30), Dequeue, Enqueue NULL]
   = Inr \<lparr>buffer = [NULL, Addr 20], capacity = 2, size_q = 2, front = 1, rear = 0,
          is_shutdown = False\<rparr> \<and>
   (0::int) < size_q \<lparr>buffer = [NULL, Addr 20], capacity = 2, size_q = 2, front = 1, rear = 0,
          is_shutdown = False\<rparr> \<and>
   rear \<lparr>buffer = [NULL, Addr 20], capacity = 2, size_q = 2, front = 1, rear = 0,
          is_shutdown = False\<rparr> = (1 + 2 - 1) mod 2"
  using index_coherence [OF _ _ queue_init_example,
      of "[Enqueue (Addr 10), Enqueue (Addr 20), Enqueue (Addr 30), Dequeue, Enqueue NULL]"]
  unfolding run_example
  by (simp add: INT_MAX_def)

end
